theory Spec2Isabelle
  imports Main "HOL-Library.Word" "HOL-Library.Signed_Division"
begin

section \<open>Values of the Go runtime used by the store\<close>

text \<open>
  Go's \<^verbatim>\<open>int64\<close> is a 64-bit word read in two's complement (\<open>sint\<close>); Go strings
  and byte slices are byte sequences, that is \<open>string\<close>.
\<close>

type_synonym int64 = "64 word"

subsection \<open>\<^verbatim>\<open>time.Time\<close>\<close>

text \<open>
  A \<^verbatim>\<open>time.Time\<close> is an instant (seconds since the Unix epoch and the nanosecond
  within that second) together with a location used only for printing.  The fields
  below are what \<^verbatim>\<open>t.Unix()\<close>, \<^verbatim>\<open>t.Nanosecond()\<close> and \<^verbatim>\<open>t.Location()\<close> read.
\<close>

datatype Location = UTC | Local | FixedZone string int

record Time =
  unixSec :: int64
  nanosecond :: nat
  location :: Location

text \<open>\<^verbatim>\<open>func (t Time) Unix() int64\<close>: the seconds elapsed since the epoch.\<close>

definition Unix :: "Time \<Rightarrow> int64" where
  "Unix t = unixSec t"

text \<open>
  \<^verbatim>\<open>func Unix(sec int64, nsec int64) Time\<close>: a nanosecond count outside
  \<open>[0, 999999999]\<close> is carried into the seconds (Go's \<^verbatim>\<open>/\<close> truncates towards
  zero, the addition on \<^verbatim>\<open>sec\<close> wraps); the result is in the local zone.
\<close>

definition time_Unix :: "int64 \<Rightarrow> int64 \<Rightarrow> Time" where
  "time_Unix sec nsec =
     (let ns = sint nsec in
      if ns < 0 \<or> ns \<ge> 1000000000 then
        (let n = ns sdiv 1000000000;
             sec1 = sec + word_of_int n;
             ns1 = ns - n * 1000000000
         in if ns1 < 0
            then \<lparr>unixSec = sec1 - 1, nanosecond = nat (ns1 + 1000000000), location = Local\<rparr>
            else \<lparr>unixSec = sec1, nanosecond = nat ns1, location = Local\<rparr>)
      else \<lparr>unixSec = sec, nanosecond = nat ns, location = Local\<rparr>)"

text \<open>\<^verbatim>\<open>func (t Time) Equal(u Time) bool\<close>: the same instant, whatever the locations.\<close>

definition Equal :: "Time \<Rightarrow> Time \<Rightarrow> bool" where
  "Equal t u = (unixSec t = unixSec u \<and> nanosecond t = nanosecond u)"

subsection \<open>Entries and stored values\<close>

text \<open>\<^verbatim>\<open>type Entry struct\<close>, the unit that callers of the store see.\<close>

record Entry =
  Domain :: string
  RegistrationDate :: Time

text \<open>\<^verbatim>\<open>type Value struct\<close>, what is saved under the domain key.\<close>

record Value =
  FirstObserved :: int64
  TimeAdded :: int64

subsection \<open>Errors\<close>

text \<open>
  The errors that reach the store's callers: the engine's distinguished
  \<^verbatim>\<open>pebble.ErrNotFound\<close>, any other failure of an engine call (with its message), and
  a failure of \<^verbatim>\<open>json.Unmarshal\<close>.
\<close>

datatype error = ErrNotFound | EngineError string | UnmarshalError string

subsection \<open>The JSON codec of \<^verbatim>\<open>Value\<close>\<close>

text \<open>
  \<^verbatim>\<open>json.Marshal\<close> and \<^verbatim>\<open>json.Unmarshal\<close> belong to Go's standard library.  The
  store uses them at one type only, so they enter the model as a pair of functions on
  \<^verbatim>\<open>Value\<close>.  Marshalling a struct of two integers cannot fail, which is why the
  source drops its error.  A failure of the decoder is \<open>Inl\<close> of its message.
\<close>

record codec =
  Marshal :: "Value \<Rightarrow> string"
  Unmarshal :: "string \<Rightarrow> string + Value"

text \<open>The law of the library that the store relies on: decoding inverts encoding.\<close>

definition codec_roundtrip :: "codec \<Rightarrow> bool" where
  "codec_roundtrip J = (\<forall>v. Unmarshal J (Marshal J v) = Inr v)"

section \<open>The storage engine\<close>

text \<open>
  Modelled from the spec: the storage engine (Pebble) is an external dependency whose
  code is not part of the repository; the specification takes it as ``providing atomic
  batch commit, point lookup, and configurable write durability''.  An open engine is
  modelled by its contents, a finite map from key bytes to value bytes.  Every engine call takes a
  \<open>fault\<close>: \<open>None\<close> when the engine carries the call out, \<open>Some msg\<close> when the
  call fails with an I/O-level error.  A failed write leaves the contents as they were,
  and a committed batch is applied as a whole, in the order its operations were added.
\<close>

type_synonym pebble_DB = "string \<rightharpoonup> string"

type_synonym fault = "string option"

datatype batch_op = BatchSet string string | BatchDelete string

type_synonym Batch = "batch_op list"

definition pebble_Get :: "fault \<Rightarrow> pebble_DB \<Rightarrow> string \<Rightarrow> error + string" where
  "pebble_Get f d key =
     (case f of
        Some msg \<Rightarrow> Inl (EngineError msg)
      | None \<Rightarrow> (case d key of None \<Rightarrow> Inl ErrNotFound | Some v \<Rightarrow> Inr v))"

definition pebble_Set :: "fault \<Rightarrow> pebble_DB \<Rightarrow> string \<Rightarrow> string \<Rightarrow> error option \<times> pebble_DB" where
  "pebble_Set f d key v =
     (case f of
        Some msg \<Rightarrow> (Some (EngineError msg), d)
      | None \<Rightarrow> (None, d(key \<mapsto> v)))"

definition pebble_Delete :: "fault \<Rightarrow> pebble_DB \<Rightarrow> string \<Rightarrow> error option \<times> pebble_DB" where
  "pebble_Delete f d key =
     (case f of
        Some msg \<Rightarrow> (Some (EngineError msg), d)
      | None \<Rightarrow> (None, d(key := None)))"

fun batch_apply :: "batch_op \<Rightarrow> pebble_DB \<Rightarrow> pebble_DB" where
  "batch_apply (BatchSet key v) d = d(key \<mapsto> v)"
| "batch_apply (BatchDelete key) d = d(key := None)"

definition pebble_Commit :: "fault \<Rightarrow> pebble_DB \<Rightarrow> Batch \<Rightarrow> error option \<times> pebble_DB" where
  "pebble_Commit f d batch =
     (case f of
        Some msg \<Rightarrow> (Some (EngineError msg), d)
      | None \<Rightarrow> (None, fold batch_apply batch d))"

section \<open>The store: \<^verbatim>\<open>pkg/db/pebble.go\<close>\<close>

text \<open>
  \<^verbatim>\<open>type PebbleDB struct\<close>, after \<^verbatim>\<open>Open\<close>.  The methods have a pointer receiver;
  here they return the store they leave behind.
\<close>

record PebbleDB =
  Path :: string
  DB :: pebble_DB

text \<open>\<^verbatim>\<open>Add\<close>; \<open>now\<close> is the reading of \<^verbatim>\<open>time.Now().Unix()\<close>.\<close>

definition Add :: "codec \<Rightarrow> fault \<Rightarrow> int64 \<Rightarrow> PebbleDB \<Rightarrow> Entry \<Rightarrow> error option \<times> PebbleDB" where
  "Add J f now db entry =
     (let value = \<lparr>FirstObserved = Unix (RegistrationDate entry), TimeAdded = now\<rparr>;
          j = Marshal J value;
          (err, d) = pebble_Set f (DB db) (Domain entry) j
      in (err, db\<lparr>DB := d\<rparr>))"

text \<open>
  \<^verbatim>\<open>AddMany\<close>: the loop fills a batch, one \<^verbatim>\<open>Set\<close> per entry in the order of the
  slice, and the batch is committed once after the loop.  \<open>clock i\<close> is the reading of
  \<^verbatim>\<open>time.Now().Unix()\<close> in iteration \<open>i\<close>.
\<close>

fun AddMany_loop :: "codec \<Rightarrow> (nat \<Rightarrow> int64) \<Rightarrow> nat \<Rightarrow> Batch \<Rightarrow> Entry list \<Rightarrow> Batch" where
  "AddMany_loop J clock i batch [] = batch"
| "AddMany_loop J clock i batch (entry # entries) =
     (let value = \<lparr>FirstObserved = Unix (RegistrationDate entry), TimeAdded = clock i\<rparr>;
          j = Marshal J value
      in AddMany_loop J clock (Suc i) (batch @ [BatchSet (Domain entry) j]) entries)"

definition AddMany :: "codec \<Rightarrow> fault \<Rightarrow> (nat \<Rightarrow> int64) \<Rightarrow> PebbleDB \<Rightarrow> Entry list \<Rightarrow> error option \<times> PebbleDB" where
  "AddMany J f clock db entries =
     (let batch = AddMany_loop J clock 0 [] entries;
          (err, d) = pebble_Commit f (DB db) batch
      in (err, db\<lparr>DB := d\<rparr>))"

text \<open>\<^verbatim>\<open>Delete\<close>.\<close>

definition Delete :: "fault \<Rightarrow> PebbleDB \<Rightarrow> string \<Rightarrow> error option \<times> PebbleDB" where
  "Delete f db domain =
     (let (err, d) = pebble_Delete f (DB db) domain in (err, db\<lparr>DB := d\<rparr>))"

text \<open>\<^verbatim>\<open>DeleteMany\<close>.\<close>

fun DeleteMany_loop :: "Batch \<Rightarrow> string list \<Rightarrow> Batch" where
  "DeleteMany_loop batch [] = batch"
| "DeleteMany_loop batch (domain # domains) =
     DeleteMany_loop (batch @ [BatchDelete domain]) domains"

definition DeleteMany :: "fault \<Rightarrow> PebbleDB \<Rightarrow> string list \<Rightarrow> error option \<times> PebbleDB" where
  "DeleteMany f db domains =
     (let batch = DeleteMany_loop [] domains;
          (err, d) = pebble_Commit f (DB db) batch
      in (err, db\<lparr>DB := d\<rparr>))"

text \<open>
  \<^verbatim>\<open>Query\<close>: the engine's not-found error is turned into an entry dated at the epoch;
  any other engine error and a decoding error are returned.
\<close>

definition Query :: "codec \<Rightarrow> fault \<Rightarrow> PebbleDB \<Rightarrow> string \<Rightarrow> error + Entry" where
  "Query J f db domain =
     (case pebble_Get f (DB db) domain of
        Inl err \<Rightarrow>
          (if err = ErrNotFound
           then Inr \<lparr>Domain = domain, RegistrationDate = time_Unix 0 0\<rparr>
           else Inl err)
      | Inr v \<Rightarrow>
          (case Unmarshal J v of
             Inl msg \<Rightarrow> Inl (UnmarshalError msg)
           | Inr value \<Rightarrow>
               Inr \<lparr>Domain = domain, RegistrationDate = time_Unix (FirstObserved value) 0\<rparr>))"

text \<open>
  \<^verbatim>\<open>QueryMany\<close>: one \<^verbatim>\<open>Query\<close> per domain, left to right, appending to \<open>entries\<close>;
  the first error ends the loop.  \<open>faults i\<close> is the engine's fault at lookup \<open>i\<close>.
\<close>

fun QueryMany_loop ::
  "codec \<Rightarrow> (nat \<Rightarrow> fault) \<Rightarrow> PebbleDB \<Rightarrow> nat \<Rightarrow> Entry list \<Rightarrow> string list \<Rightarrow> error + Entry list" where
  "QueryMany_loop J faults db i entries [] = Inr entries"
| "QueryMany_loop J faults db i entries (domain # domains) =
     (case Query J (faults i) db domain of
        Inl err \<Rightarrow> Inl err
      | Inr entry \<Rightarrow> QueryMany_loop J faults db (Suc i) (entries @ [entry]) domains)"

definition QueryMany :: "codec \<Rightarrow> (nat \<Rightarrow> fault) \<Rightarrow> PebbleDB \<Rightarrow> string list \<Rightarrow> error + Entry list" where
  "QueryMany J faults db domains = QueryMany_loop J faults db 0 [] domains"

subsection \<open>Histories of store calls\<close>

text \<open>
  A mutating call of the store together with what the environment contributes to it
  (the engine's fault and the clock readings).  \<open>run\<close> carries a list of such calls
  out from left to right; \<open>inserted\<close> is the set of domains a call asks to insert.
\<close>

datatype call =
    CallAdd fault int64 Entry
  | CallAddMany fault "nat \<Rightarrow> int64" "Entry list"
  | CallDelete fault string
  | CallDeleteMany fault "string list"

fun exec_call :: "codec \<Rightarrow> PebbleDB \<Rightarrow> call \<Rightarrow> PebbleDB" where
  "exec_call J db (CallAdd f now entry) = snd (Add J f now db entry)"
| "exec_call J db (CallAddMany f clock entries) = snd (AddMany J f clock db entries)"
| "exec_call J db (CallDelete f domain) = snd (Delete f db domain)"
| "exec_call J db (CallDeleteMany f domains) = snd (DeleteMany f db domains)"

definition run :: "codec \<Rightarrow> PebbleDB \<Rightarrow> call list \<Rightarrow> PebbleDB" where
  "run J db calls = foldl (exec_call J) db calls"

fun inserted :: "call \<Rightarrow> string set" where
  "inserted (CallAdd f now entry) = {Domain entry}"
| "inserted (CallAddMany f clock entries) = Domain ` set entries"
| "inserted (CallDelete f domain) = {}"
| "inserted (CallDeleteMany f domains) = {}"

section \<open>An instance of the codec: the JSON text of a \<^verbatim>\<open>Value\<close>\<close>

text \<open>
  \<open>json_Marshal\<close> writes what Go's encoder writes for the struct: an object with the
  fields in declaration order under their tags \<^verbatim>\<open>first_observed\<close> and \<^verbatim>\<open>now\<close>, the
  integers in decimal.  \<open>json_Unmarshal\<close> reads texts of exactly this shape back (Go's
  decoder accepts more: white space, other field orders, unknown fields); a number with
  a leading zero or outside the range of \<^verbatim>\<open>int64\<close> is an error, as in Go.
\<close>

definition digit_char :: "nat \<Rightarrow> char" where
  "digit_char d = char_of (48 + d)"

function show_nat :: "nat \<Rightarrow> string" where
  "show_nat n = (if n < 10 then [digit_char n] else show_nat (n div 10) @ [digit_char (n mod 10)])"
  by pat_completeness auto
termination
  by (relation "measure id") auto

declare show_nat.simps [simp del]

definition show_int :: "int \<Rightarrow> string" where
  "show_int k = (if k < 0 then CHR ''-'' # show_nat (nat (- k)) else show_nat (nat k))"

definition is_digit :: "char \<Rightarrow> bool" where
  "is_digit c = (48 \<le> (of_char c :: nat) \<and> (of_char c :: nat) \<le> 57)"

definition digit_val :: "char \<Rightarrow> nat" where
  "digit_val c = of_char c - 48"

fun parse_digits :: "nat \<Rightarrow> string \<Rightarrow> nat option" where
  "parse_digits acc [] = Some acc"
| "parse_digits acc (c # cs) =
     (if is_digit c then parse_digits (acc * 10 + digit_val c) cs else None)"

definition parse_nat :: "string \<Rightarrow> nat option" where
  "parse_nat s =
     (if s = [] \<or> (hd s = CHR ''0'' \<and> tl s \<noteq> []) then None else parse_digits 0 s)"

definition parse_int :: "string \<Rightarrow> int option" where
  "parse_int s =
     (case s of
        [] \<Rightarrow> None
      | c # r \<Rightarrow> if c = CHR ''-'' then map_option (\<lambda>n. - int n) (parse_nat r)
                 else map_option int (parse_nat s))"

definition parse_int64 :: "string \<Rightarrow> int64 option" where
  "parse_int64 s =
     (case parse_int s of
        None \<Rightarrow> None
      | Some k \<Rightarrow> if - (2 ^ 63) \<le> k \<and> k < 2 ^ 63 then Some (word_of_int k) else None)"

fun strip_prefix :: "string \<Rightarrow> string \<Rightarrow> string option" where
  "strip_prefix [] s = Some s"
| "strip_prefix (p # ps) [] = None"
| "strip_prefix (p # ps) (c # cs) = (if p = c then strip_prefix ps cs else None)"

definition json_Marshal :: "Value \<Rightarrow> string" where
  \<open>json_Marshal v =
     ''{"first_observed":'' @ show_int (sint (FirstObserved v)) @
     '',"now":'' @ show_int (sint (TimeAdded v)) @ ''}''\<close>

definition json_Unmarshal :: "string \<Rightarrow> string + Value" where
  \<open>json_Unmarshal bs =
     (case strip_prefix ''{"first_observed":'' bs of
        None \<Rightarrow> Inl ''unexpected input''
      | Some r1 \<Rightarrow>
          (case strip_prefix '',"now":'' (dropWhile (\<lambda>c. c \<noteq> CHR '','') r1) of
             None \<Rightarrow> Inl ''unexpected input''
           | Some r2 \<Rightarrow>
               if dropWhile (\<lambda>c. c \<noteq> CHR ''}'') r2 \<noteq> ''}''
               then Inl ''unexpected input''
               else (case (parse_int64 (takeWhile (\<lambda>c. c \<noteq> CHR '','') r1),
                           parse_int64 (takeWhile (\<lambda>c. c \<noteq> CHR ''}'') r2)) of
                       (Some a, Some b) \<Rightarrow> Inr \<lparr>FirstObserved = a, TimeAdded = b\<rparr>
                     | _ \<Rightarrow> Inl ''number out of range'')))\<close>

definition json_codec :: codec where
  "json_codec = \<lparr>Marshal = json_Marshal, Unmarshal = json_Unmarshal\<rparr>"


section \<open>The HTTP layer\<close>

subsection \<open>Library functions\<close>

text \<open>\<^verbatim>\<open>strings.HasPrefix(s, prefix)\<close>.\<close>

definition HasPrefix :: "string \<Rightarrow> string \<Rightarrow> bool" where
  "HasPrefix s pre = (length s \<ge> length pre \<and> take (length pre) s = pre)"



subsection \<open>Configuration and server state\<close>

text \<open>
  \<^verbatim>\<open>type Config struct\<close>.  The two user tables are Go maps from user name to
  password, given here by the pairs in the order in which a \<^verbatim>\<open>range\<close> loop visits
  them.  The logger and the rate limit take no part in what follows and are left out.
\<close>

record Config =
  BasePath :: string
  BasePathAdmin :: string
  ListenAddr :: string
  IsTLS :: bool
  TLSCert :: string
  TLSKey :: string
  AuthMethodAPI :: string
  AuthUsersAPI :: "(string \<times> string) list"
  AuthMethodAdmin :: string
  AuthUsersAdmin :: "(string \<times> string) list"

text \<open>\<^verbatim>\<open>type API struct\<close>: the store behind the handlers and the configuration.\<close>

record API =
  api_DB :: PebbleDB
  api_C :: Config

subsection \<open>\<^verbatim>\<open>addMiddlewares\<close>: authentication\<close>









subsection \<open>Handlers\<close>

text \<open>
  A response is a status code and a JSON body.  The body of a successful query holds
  the domain and the registration date (printed in RFC 3339 by the handler).
\<close>

datatype body = ErrorBody string | StatusBody string | EntryBody string Time

type_synonym response = "nat \<times> body"

text \<open>\<^verbatim>\<open>query\<close>; \<open>domain\<close> is \<^verbatim>\<open>c.Param("domain")\<close>.\<close>

definition query :: "codec \<Rightarrow> fault \<Rightarrow> API \<Rightarrow> string \<Rightarrow> response" where
  "query J f api domain =
     (case Query J f (api_DB api) domain of
        Inl err \<Rightarrow> (500, ErrorBody ''internal server error'')
      | Inr entry \<Rightarrow>
          if Domain entry = []
          then (404, ErrorBody ''domain not found'')
          else (200, EntryBody (Domain entry) (RegistrationDate entry)))"

text \<open>\<^verbatim>\<open>deleteDomain\<close>.\<close>

definition deleteDomain :: "fault \<Rightarrow> API \<Rightarrow> string \<Rightarrow> response \<times> API" where
  "deleteDomain f api domain =
     (case Delete f (api_DB api) domain of
        (Some err, db) \<Rightarrow> ((404, ErrorBody ''domain not found''), api\<lparr>api_DB := db\<rparr>)
      | (None, db) \<Rightarrow> ((200, StatusBody ''ok''), api\<lparr>api_DB := db\<rparr>))"

subsection \<open>Rounding an instant to whole seconds\<close>

text \<open>
  The specification speaks of a date ``truncated to whole seconds'': the same instant
  with its nanoseconds dropped, which is what \<^verbatim>\<open>t.Truncate(time.Second)\<close> yields.
\<close>

definition Truncate_Second :: "Time \<Rightarrow> Time" where
  "Truncate_Second t = t\<lparr>nanosecond := 0\<rparr>"

section \<open>Example data\<close>

text \<open>
  A store opened on an empty directory, an entry for \<^verbatim>\<open>evil.example\<close> first
  observed half a second after 2024-01-01T00:00:00Z, an entry for another domain, a
  second entry for \<^verbatim>\<open>evil.example\<close> dated 2025-01-01T00:00:00Z, a clock that
  advances by one second per reading, and an entry first observed at the Unix epoch.
\<close>

definition empty_store :: PebbleDB where
  "empty_store = \<lparr>Path = ''/tmp/nodzilla/db'', DB = Map.empty\<rparr>"

definition evil_example :: Entry where
  "evil_example =
     \<lparr>Domain = ''evil.example'',
      RegistrationDate = \<lparr>unixSec = 1704067200, nanosecond = 500000000, location = UTC\<rparr>\<rparr>"

definition other_example :: Entry where
  "other_example =
     \<lparr>Domain = ''other.example'',
      RegistrationDate = \<lparr>unixSec = 1700000000, nanosecond = 0, location = UTC\<rparr>\<rparr>"

definition evil_example_later :: Entry where
  "evil_example_later =
     \<lparr>Domain = ''evil.example'',
      RegistrationDate = \<lparr>unixSec = 1735689600, nanosecond = 0, location = UTC\<rparr>\<rparr>"

definition ticking :: "nat \<Rightarrow> int64" where
  "ticking i = 1700000000 + of_nat i"

text \<open>The empty store after a batch insertion of the first two entries.\<close>

definition two_domains :: PebbleDB where
  "two_domains =
     snd (AddMany json_codec None ticking empty_store [evil_example, other_example])"

definition epoch_example :: Entry where
  "epoch_example =
     \<lparr>Domain = ''old.example'',
      RegistrationDate = \<lparr>unixSec = 0, nanosecond = 0, location = UTC\<rparr>\<rparr>"

text \<open>An engine that fails the second lookup of a call and no other.\<close>

definition second_lookup_fails :: "nat \<Rightarrow> fault" where
  "second_lookup_fails k = (if k = 1 then Some ''read error'' else None)"

text \<open>
  The configuration of \<^verbatim>\<open>config.defaults.yaml\<close>; the same with a query base path
  written without its leading slash; and one where both realms check credentials against
  different user tables.
\<close>

definition default_config :: Config where
  "default_config =
     \<lparr>BasePath = ''/'', BasePathAdmin = ''/admin'', ListenAddr = ''127.0.0.1:3000'',
      IsTLS = False, TLSCert = '''', TLSKey = '''',
      AuthMethodAPI = ''none'',
      AuthUsersAPI = [(''username1'', ''password1''), (''username2'', ''password2'')],
      AuthMethodAdmin = ''plain'',
      AuthUsersAdmin = [(''username1'', ''password1''), (''username2'', ''password2'')]\<rparr>"



section \<open>Properties of the codec instance\<close>

lemma digit_char_is_digit: "d < 10 \<Longrightarrow> is_digit (digit_char d)"
  by (simp add: is_digit_def digit_char_def)

lemma digit_val_digit_char: "d < 10 \<Longrightarrow> digit_val (digit_char d) = d"
  by (simp add: digit_val_def digit_char_def)

lemma parse_digits_snoc:
  "d < 10 \<Longrightarrow> parse_digits acc (s @ [digit_char d]) = map_option (\<lambda>a. a * 10 + d) (parse_digits acc s)"
  by (induction s arbitrary: acc) (simp_all add: digit_char_is_digit digit_val_digit_char)

lemma parse_digits_show_nat: "parse_digits 0 (show_nat n) = Some n"
proof (induction n rule: show_nat.induct)
  case (1 n)
  show ?case
  proof (cases "n < 10")
    case True
    then show ?thesis
      by (subst show_nat.simps) (simp add: digit_char_is_digit digit_val_digit_char)
  next
    case False
    then have "parse_digits 0 (show_nat (n div 10)) = Some (n div 10)"
      using "1.IH" by simp
    with False show ?thesis
      by (subst show_nat.simps) (simp add: parse_digits_snoc)
  qed
qed


lemma show_nat_digits: "c \<in> set (show_nat n) \<Longrightarrow> is_digit c"
proof (induction n rule: show_nat.induct)
  case (1 n)
  show ?case
  proof (cases "n < 10")
    case True
    with "1.prems" show ?thesis
      by (subst (asm) show_nat.simps) (simp add: digit_char_is_digit)
  next
    case False
    with "1.prems" "1.IH" show ?thesis
      by (subst (asm) show_nat.simps) (auto simp add: digit_char_is_digit)
  qed
qed

lemma show_nat_leading: "0 < n \<Longrightarrow> show_nat n \<noteq> [] \<and> hd (show_nat n) \<noteq> CHR ''0''"
proof (induction n rule: show_nat.induct)
  case (1 n)
  show ?case
  proof (cases "n < 10")
    case True
    have "digit_char n \<noteq> CHR ''0''"
      using True "1.prems" by (simp add: digit_char_def char_of_eq_iff take_bit_eq_mod)
    with True show ?thesis
      by (subst (1 2) show_nat.simps) simp
  next
    case False
    then have "show_nat (n div 10) \<noteq> [] \<and> hd (show_nat (n div 10)) \<noteq> CHR ''0''"
      using "1.IH" by simp
    with False show ?thesis
      by (subst (1 2) show_nat.simps) simp
  qed
qed

lemma show_nat_zero: "show_nat 0 = ''0''"
  by (subst show_nat.simps) (simp add: digit_char_def char_of_eq_iff)

lemma parse_nat_show_nat: "parse_nat (show_nat n) = Some n"
proof (cases "n = 0")
  case True
  then show ?thesis
    by (simp add: show_nat_zero parse_nat_def is_digit_def digit_val_def)
next
  case False
  then have "show_nat n \<noteq> [] \<and> hd (show_nat n) \<noteq> CHR ''0''"
    by (simp add: show_nat_leading)
  then show ?thesis
    by (simp add: parse_nat_def parse_digits_show_nat)
qed

lemma is_digit_not_minus: "is_digit c \<Longrightarrow> c \<noteq> CHR ''-''"
  by (auto simp add: is_digit_def)

lemma parse_int_show_int: "parse_int (show_int k) = Some k"
proof (cases "k < 0")
  case True
  then show ?thesis
    by (simp add: parse_int_def show_int_def parse_nat_show_nat)
next
  case False
  obtain c r where cr: "show_nat (nat k) = c # r"
    using parse_nat_show_nat [of "nat k"] by (cases "show_nat (nat k)") (simp_all add: parse_nat_def)
  then have "is_digit c"
    using show_nat_digits [of c "nat k"] by simp
  then have "c \<noteq> CHR ''-''"
    by (rule is_digit_not_minus)
  moreover have "parse_nat (c # r) = Some (nat k)"
    using parse_nat_show_nat [of "nat k"] cr by simp
  ultimately show ?thesis
    using False cr by (simp add: parse_int_def show_int_def)
qed

lemma parse_int64_show_int: "parse_int64 (show_int (sint (w :: int64))) = Some w"
proof -
  have "- (2 ^ 63) \<le> sint w" "sint w < 2 ^ 63"
    using sint_ge [of w] sint_lt [of w] by simp_all
  then show ?thesis
    by (simp add: parse_int64_def parse_int_show_int)
qed

lemma show_int_chars: "c \<in> set (show_int k) \<Longrightarrow> c \<noteq> CHR '','' \<and> c \<noteq> CHR ''}''"
  by (auto simp add: show_int_def is_digit_def dest!: show_nat_digits split: if_splits)

lemma json_codec_roundtrip: "codec_roundtrip json_codec"
proof -
  have "json_Unmarshal (json_Marshal v) = Inr v" for v
  proof -
    let ?a = "show_int (sint (FirstObserved v))"
    let ?b = "show_int (sint (TimeAdded v))"
    have a: "takeWhile (\<lambda>c. c \<noteq> CHR '','') (?a @ CHR '','' # s) = ?a"
      and a': "dropWhile (\<lambda>c. c \<noteq> CHR '','') (?a @ CHR '','' # s) = CHR '','' # s" for s
      using show_int_chars by (simp_all add: takeWhile_append2 dropWhile_append2)
    have b: "takeWhile (\<lambda>c. c \<noteq> CHR ''}'') (?b @ CHR ''}'' # s) = ?b"
      and b': "dropWhile (\<lambda>c. c \<noteq> CHR ''}'') (?b @ CHR ''}'' # s) = CHR ''}'' # s" for s
      using show_int_chars by (simp_all add: takeWhile_append2 dropWhile_append2)
    show ?thesis
      by (simp add: json_Marshal_def json_Unmarshal_def a a' b b' parse_int64_show_int)
  qed
  then show ?thesis
    by (simp add: codec_roundtrip_def json_codec_def)
qed

section \<open>Properties of the store\<close>

lemma time_Unix_zero_nsec:
  "time_Unix sec 0 = \<lparr>unixSec = sec, nanosecond = 0, location = Local\<rparr>"
  by (simp add: time_Unix_def)

lemma Query_absent:
  "DB db domain = None \<Longrightarrow>
   Query J None db domain = Inr \<lparr>Domain = domain, RegistrationDate = time_Unix 0 0\<rparr>"
  by (simp add: Query_def pebble_Get_def)

lemma Query_present:
  "DB db domain = Some bs \<Longrightarrow>
   Query J None db domain =
     (case Unmarshal J bs of
        Inl msg \<Rightarrow> Inl (UnmarshalError msg)
      | Inr value \<Rightarrow> Inr \<lparr>Domain = domain, RegistrationDate = time_Unix (FirstObserved value) 0\<rparr>)"
  by (simp add: Query_def pebble_Get_def)

lemma Query_fault:
  "Query J (Some msg) db domain = Inl (EngineError msg)"
  by (simp add: Query_def pebble_Get_def)

lemma Query_never_ErrNotFound: "Query J f db domain \<noteq> Inl ErrNotFound"
  by (cases f) (auto simp add: Query_def pebble_Get_def split: option.splits sum.splits)

lemma Query_Inr_Domain: "Query J f db domain = Inr entry \<Longrightarrow> Domain entry = domain"
  by (auto simp add: Query_def pebble_Get_def split: option.splits sum.splits if_splits)

lemma Query_cong_DB:
  "DB db1 key = DB db2 key \<Longrightarrow> Query J f db1 key = Query J f db2 key"
  by (cases f) (simp_all add: Query_def pebble_Get_def)

lemma Add_DB:
  "Add J f now db entry =
     (case f of
        Some msg \<Rightarrow> (Some (EngineError msg), db)
      | None \<Rightarrow> (None, db\<lparr>DB := (DB db)(Domain entry \<mapsto>
           Marshal J \<lparr>FirstObserved = Unix (RegistrationDate entry), TimeAdded = now\<rparr>)\<rparr>))"
  by (cases f) (simp_all add: Add_def pebble_Set_def)

lemma Delete_DB:
  "Delete f db domain =
     (case f of
        Some msg \<Rightarrow> (Some (EngineError msg), db)
      | None \<Rightarrow> (None, db\<lparr>DB := (DB db)(domain := None)\<rparr>))"
  by (cases f) (simp_all add: Delete_def pebble_Delete_def)

lemma AddMany_loop_append:
  "AddMany_loop J clock i batch entries = batch @ AddMany_loop J clock i [] entries"
proof (induction entries arbitrary: i batch)
  case Nil
  show ?case by simp
next
  case (Cons entry entries)
  show ?case
    using Cons.IH [of "Suc i" "batch @ [x]" for x] Cons.IH [of "Suc i" "[x]" for x]
    by (simp add: Let_def)
qed

lemma AddMany_loop_keys:
  "fold batch_apply (AddMany_loop J clock i [] entries) d key = None \<longleftrightarrow>
   d key = None \<and> key \<notin> Domain ` set entries"
proof (induction entries arbitrary: i d)
  case Nil
  show ?case by simp
next
  case (Cons entry entries)
  show ?case
    by (subst AddMany_loop.simps, simp only: Let_def, subst AddMany_loop_append)
       (auto simp add: Cons.IH)
qed

lemma DeleteMany_loop_append:
  "DeleteMany_loop batch domains = batch @ DeleteMany_loop [] domains"
proof (induction domains arbitrary: batch)
  case Nil
  show ?case by simp
next
  case (Cons domain domains)
  show ?case
    using Cons.IH [of "batch @ [BatchDelete domain]"] Cons.IH [of "[BatchDelete domain]"]
    by simp
qed

lemma DeleteMany_loop_fold:
  "fold batch_apply (DeleteMany_loop [] domains) d key =
     (if key \<in> set domains then None else d key)"
proof (induction domains arbitrary: d)
  case Nil
  show ?case by simp
next
  case (Cons domain domains)
  show ?case
    by (subst DeleteMany_loop.simps, subst DeleteMany_loop_append) (simp add: Cons.IH)
qed

lemma exec_call_absent:
  "DB db domain = None \<Longrightarrow> domain \<notin> inserted c \<Longrightarrow> DB (exec_call J db c) domain = None"
proof (cases c)
  case (CallAdd f now entry)
  assume "DB db domain = None" "domain \<notin> inserted c"
  with CallAdd show ?thesis
    by (cases f) (simp_all add: Add_DB)
next
  case (CallAddMany f clock entries)
  assume "DB db domain = None" "domain \<notin> inserted c"
  with CallAddMany show ?thesis
    by (cases f) (simp_all add: AddMany_def pebble_Commit_def AddMany_loop_keys)
next
  case (CallDelete f d)
  assume "DB db domain = None" "domain \<notin> inserted c"
  with CallDelete show ?thesis
    by (cases f) (simp_all add: Delete_DB)
next
  case (CallDeleteMany f ds)
  assume "DB db domain = None" "domain \<notin> inserted c"
  with CallDeleteMany show ?thesis
    by (cases f) (simp_all add: DeleteMany_def pebble_Commit_def DeleteMany_loop_fold)
qed

lemma run_absent:
  "DB db domain = None \<Longrightarrow> \<forall>c \<in> set calls. domain \<notin> inserted c \<Longrightarrow>
   DB (run J db calls) domain = None"
  unfolding run_def
proof (induction calls arbitrary: db)
  case Nil
  then show ?case by simp
next
  case (Cons c calls)
  have "DB (exec_call J db c) domain = None"
    using Cons.prems by (simp add: exec_call_absent)
  then show ?case
    using Cons.IH [of "exec_call J db c"] Cons.prems by simp
qed

lemma AddMany_loop_other:
  "key \<notin> Domain ` set entries \<Longrightarrow>
   fold batch_apply (AddMany_loop J clock i [] entries) d key = d key"
proof (induction entries arbitrary: i d)
  case Nil
  show ?case by simp
next
  case (Cons entry entries)
  then show ?case
    by (subst AddMany_loop.simps, simp only: Let_def, subst AddMany_loop_append) auto
qed

lemma AddMany_loop_Cons:
  "AddMany_loop J clock i [] (entry # entries) =
     BatchSet (Domain entry)
       (Marshal J \<lparr>FirstObserved = Unix (RegistrationDate entry), TimeAdded = clock i\<rparr>)
     # AddMany_loop J clock (Suc i) [] entries"
  by (subst AddMany_loop.simps, simp only: Let_def, subst AddMany_loop_append) simp

lemma AddMany_loop_last:
  "key \<in> Domain ` set entries \<Longrightarrow>
   \<exists>t. fold batch_apply (AddMany_loop J clock i [] entries) d key =
     Some (Marshal J \<lparr>FirstObserved =
             Unix (RegistrationDate (last (filter (\<lambda>x. Domain x = key) entries))),
           TimeAdded = t\<rparr>)"
proof (induction entries arbitrary: i d)
  case Nil
  then show ?case by simp
next
  case (Cons entry entries)
  show ?case
  proof (cases "key \<in> Domain ` set entries")
    case True
    then have ne: "filter (\<lambda>x. Domain x = key) entries \<noteq> []"
      by (auto simp add: filter_empty_conv)
    from Cons.IH [OF True] ne show ?thesis
      by (simp add: AddMany_loop_Cons del: AddMany_loop.simps)
  next
    case False
    then have emp: "filter (\<lambda>x. Domain x = key) entries = []"
      by (auto simp add: filter_empty_conv)
    from False Cons.prems have "Domain entry = key"
      by auto
    with False emp show ?thesis
      by (auto simp add: AddMany_loop_Cons AddMany_loop_other simp del: AddMany_loop.simps)
  qed
qed

lemma AddMany_loop_index:
  "i < length entries \<Longrightarrow>
   \<forall>j. i < j \<and> j < length entries \<longrightarrow> Domain (entries ! j) \<noteq> Domain (entries ! i) \<Longrightarrow>
   fold batch_apply (AddMany_loop J clock k [] entries) d (Domain (entries ! i)) =
     Some (Marshal J \<lparr>FirstObserved = Unix (RegistrationDate (entries ! i)),
                      TimeAdded = clock (k + i)\<rparr>)"
proof (induction entries arbitrary: i k d)
  case Nil
  then show ?case by simp
next
  case (Cons entry entries)
  show ?case
  proof (cases i)
    case 0
    have "Domain entry \<notin> Domain ` set entries"
    proof
      assume "Domain entry \<in> Domain ` set entries"
      then obtain j where "j < length entries" "Domain (entries ! j) = Domain entry"
        by (auto simp add: in_set_conv_nth)
      with Cons.prems(2) [rule_format, of "Suc j"] 0 show False
        by simp
    qed
    with 0 show ?thesis
      by (simp add: AddMany_loop_Cons AddMany_loop_other del: AddMany_loop.simps)
  next
    case (Suc i')
    have later: "\<forall>j. i' < j \<and> j < length entries \<longrightarrow>
        Domain (entries ! j) \<noteq> Domain (entries ! i')"
    proof (intro allI impI)
      fix j assume "i' < j \<and> j < length entries"
      with Cons.prems(2) [rule_format, of "Suc j"] Suc
      show "Domain (entries ! j) \<noteq> Domain (entries ! i')"
        by simp
    qed
    from Cons.prems(1) Suc have "i' < length entries"
      by simp
    from Cons.IH [OF this later, of "Suc k"] Suc show ?thesis
      by (simp add: AddMany_loop_Cons del: AddMany_loop.simps)
  qed
qed

lemma AddMany_result:
  "AddMany J f clock db entries =
     (case f of
        Some msg \<Rightarrow> (Some (EngineError msg), db)
      | None \<Rightarrow> (None, db\<lparr>DB := fold batch_apply (AddMany_loop J clock 0 [] entries) (DB db)\<rparr>))"
  by (cases f) (simp_all add: AddMany_def pebble_Commit_def)

lemma DeleteMany_result:
  "DeleteMany f db domains =
     (case f of
        Some msg \<Rightarrow> (Some (EngineError msg), db)
      | None \<Rightarrow> (None, db\<lparr>DB := fold batch_apply (DeleteMany_loop [] domains) (DB db)\<rparr>))"
  by (cases f) (simp_all add: DeleteMany_def pebble_Commit_def)

lemma filter_distinct_key:
  "distinct (map g xs) \<Longrightarrow> x \<in> set xs \<Longrightarrow> filter (\<lambda>y. g y = g x) xs = [x]"
proof (induction xs)
  case Nil
  then show ?case by simp
next
  case (Cons a xs)
  show ?case
  proof (cases "x = a")
    case True
    from Cons.prems have "g a \<notin> g ` set xs"
      by simp
    then have "\<And>y. y \<in> set xs \<Longrightarrow> g y \<noteq> g a"
      by (metis imageI)
    then have "filter (\<lambda>y. g y = g a) xs = []"
      by (simp add: filter_empty_conv)
    with True show ?thesis by simp
  next
    case False
    with Cons.prems have "x \<in> set xs" "g a \<noteq> g x"
      by auto
    with Cons show ?thesis by simp
  qed
qed

lemma QueryMany_loop_Inr:
  "QueryMany_loop J faults db i acc domains = Inr entries \<longleftrightarrow>
     (\<exists>new. entries = acc @ new \<and> length new = length domains \<and>
        (\<forall>k < length domains. Query J (faults (i + k)) db (domains ! k) = Inr (new ! k)))"
proof (induction domains arbitrary: i acc)
  case Nil
  show ?case by auto
next
  case (Cons domain domains)
  show ?case
  proof (cases "Query J (faults i) db domain")
    case (Inl err)
    then show ?thesis
      by (auto simp add: All_less_Suc2)
  next
    case (Inr entry)
    show ?thesis
    proof
      assume "QueryMany_loop J faults db i acc (domain # domains) = Inr entries"
      with Inr Cons.IH [of "Suc i" "acc @ [entry]"] obtain new where
        new: "entries = (acc @ [entry]) @ new" "length new = length domains"
          "\<forall>k < length domains. Query J (faults (Suc i + k)) db (domains ! k) = Inr (new ! k)"
        by auto
      let ?new = "entry # new"
      from new Inr have "entries = acc @ ?new \<and> length ?new = length (domain # domains) \<and>
          (\<forall>k < length (domain # domains).
             Query J (faults (i + k)) db ((domain # domains) ! k) = Inr (?new ! k))"
        by (simp add: All_less_Suc2)
      then show "\<exists>new. entries = acc @ new \<and> length new = length (domain # domains) \<and>
          (\<forall>k < length (domain # domains).
             Query J (faults (i + k)) db ((domain # domains) ! k) = Inr (new ! k))"
        by blast
    next
      assume "\<exists>new. entries = acc @ new \<and> length new = length (domain # domains) \<and>
          (\<forall>k < length (domain # domains).
             Query J (faults (i + k)) db ((domain # domains) ! k) = Inr (new ! k))"
      then obtain new where
        new: "entries = acc @ new" "length new = Suc (length domains)"
          "\<forall>k < Suc (length domains).
             Query J (faults (i + k)) db ((domain # domains) ! k) = Inr (new ! k)"
        by auto
      from new(2) obtain x rest where xr: "new = x # rest" "length rest = length domains"
        by (auto simp add: length_Suc_conv)
      from new(3) xr Inr have "x = entry"
        and "\<forall>k < length domains. Query J (faults (Suc i + k)) db (domains ! k) = Inr (rest ! k)"
        by (simp_all add: All_less_Suc2)
      with new(1) xr have "\<exists>new. entries = (acc @ [entry]) @ new \<and> length new = length domains \<and>
          (\<forall>k < length domains. Query J (faults (Suc i + k)) db (domains ! k) = Inr (new ! k))"
        by auto
      with Inr Cons.IH [of "Suc i" "acc @ [entry]"]
      show "QueryMany_loop J faults db i acc (domain # domains) = Inr entries"
        by simp
    qed
  qed
qed

lemma QueryMany_loop_Inl:
  "QueryMany_loop J faults db i acc domains = Inl err \<longleftrightarrow>
     (\<exists>k < length domains.
        Query J (faults (i + k)) db (domains ! k) = Inl err \<and>
        (\<forall>j < k. \<exists>e. Query J (faults (i + j)) db (domains ! j) = Inr e))"
proof (induction domains arbitrary: i acc)
  case Nil
  show ?case by simp
next
  case (Cons domain domains)
  show ?case
  proof (cases "Query J (faults i) db domain")
    case (Inl err0)
    show ?thesis
    proof
      assume "QueryMany_loop J faults db i acc (domain # domains) = Inl err"
      with Inl have "err0 = err"
        by simp
      with Inl have "Query J (faults (i + 0)) db ((domain # domains) ! 0) = Inl err \<and>
          (\<forall>j < 0. \<exists>e. Query J (faults (i + j)) db ((domain # domains) ! j) = Inr e)"
        by simp
      then show "\<exists>k < length (domain # domains).
          Query J (faults (i + k)) db ((domain # domains) ! k) = Inl err \<and>
          (\<forall>j < k. \<exists>e. Query J (faults (i + j)) db ((domain # domains) ! j) = Inr e)"
        by (metis length_Cons zero_less_Suc)
    next
      assume "\<exists>k < length (domain # domains).
          Query J (faults (i + k)) db ((domain # domains) ! k) = Inl err \<and>
          (\<forall>j < k. \<exists>e. Query J (faults (i + j)) db ((domain # domains) ! j) = Inr e)"
      then obtain k where k: "Query J (faults (i + k)) db ((domain # domains) ! k) = Inl err"
          "\<forall>j < k. \<exists>e. Query J (faults (i + j)) db ((domain # domains) ! j) = Inr e"
        by blast
      have "k = 0"
      proof (rule ccontr)
        assume "k \<noteq> 0"
        with k(2) [rule_format, of 0] Inl show False
          by simp
      qed
      with k(1) Inl show "QueryMany_loop J faults db i acc (domain # domains) = Inl err"
        by simp
    qed
  next
    case (Inr entry)
    have "(\<exists>k < length (domain # domains).
          Query J (faults (i + k)) db ((domain # domains) ! k) = Inl err \<and>
          (\<forall>j < k. \<exists>e. Query J (faults (i + j)) db ((domain # domains) ! j) = Inr e)) \<longleftrightarrow>
       (\<exists>k < length domains.
          Query J (faults (Suc i + k)) db (domains ! k) = Inl err \<and>
          (\<forall>j < k. \<exists>e. Query J (faults (Suc i + j)) db (domains ! j) = Inr e))"
      using Inr by (simp add: Ex_less_Suc2 All_less_Suc2)
    with Inr Cons.IH [of "Suc i" "acc @ [entry]"] show ?thesis
      by simp
  qed
qed

section \<open>Properties of the HTTP layer\<close>





lemma HasPrefix_iff: "HasPrefix s pre \<longleftrightarrow> (\<exists>rest. s = pre @ rest)"
proof
  assume "HasPrefix s pre"
  then have "s = pre @ drop (length pre) s"
    by (metis HasPrefix_def append_take_drop_id)
  then show "\<exists>rest. s = pre @ rest" ..
next
  assume "\<exists>rest. s = pre @ rest"
  then show "HasPrefix s pre"
    by (auto simp add: HasPrefix_def)
qed


lemma deleteDomain_status:
  "fst (fst (deleteDomain f api domain)) =
     (case fst (Delete f (api_DB api) domain) of None \<Rightarrow> 200 | Some err \<Rightarrow> 404)"
  by (cases f) (simp_all add: deleteDomain_def Delete_DB)

section \<open>The claims about the store\<close>

text \<open>
  Claim C1.  A domain that was never inserted is answered without error: whatever
  calls the store has carried out since a state in which the domain was absent, as long
  as none of them inserted it, \<^verbatim>\<open>Query\<close> returns the entry for that domain dated at
  the Unix epoch.  The engine's not-found error never reaches the caller, whatever
  else happens to the lookup.
\<close>

theorem Query_never_inserted:
  assumes "DB db0 domain = None"
    and "\<forall>c \<in> set calls. domain \<notin> inserted c"
  shows "Query J None (run J db0 calls) domain =
           Inr \<lparr>Domain = domain, RegistrationDate = time_Unix 0 0\<rparr>
         \<and> (\<forall>f. Query J f (run J db0 calls) domain \<noteq> Inl ErrNotFound)"
  using run_absent [OF assms] by (simp add: Query_absent Query_never_ErrNotFound)

theorem Query_never_inserted_witness:
  "DB empty_store ''never-seen.example'' = None
   \<and> ''never-seen.example'' \<notin> inserted (CallAdd None 1700000000 evil_example)
   \<and> ''never-seen.example'' \<notin> inserted (CallDelete None ''evil.example'')
   \<and> Query json_codec None
        (run json_codec empty_store
           [CallAdd None 1700000000 evil_example, CallDelete None ''evil.example''])
        ''never-seen.example'' =
      Inr \<lparr>Domain = ''never-seen.example'', RegistrationDate = time_Unix 0 0\<rparr>"
proof -
  have absent: "DB empty_store ''never-seen.example'' = None"
    by (simp add: empty_store_def)
  have never: "\<forall>c \<in> set [CallAdd None 1700000000 evil_example, CallDelete None ''evil.example''].
      ''never-seen.example'' \<notin> inserted c"
    by (simp add: evil_example_def)
  from Query_never_inserted [OF absent never, of json_codec] absent never
  show ?thesis
    by simp
qed

text \<open>
  Claim C2.  After a successful \<^verbatim>\<open>Add\<close> of an entry, \<^verbatim>\<open>Query\<close> on its domain
  returns that domain with the registration date \<^verbatim>\<open>time.Unix(date.Unix(), 0)\<close>, which
  is the instant of the original date truncated to whole seconds.
\<close>

theorem Add_then_Query:
  assumes "codec_roundtrip J"
    and "Add J f now db entry = (None, db')"
  shows "Query J None db' (Domain entry) =
           Inr \<lparr>Domain = Domain entry,
                RegistrationDate = time_Unix (Unix (RegistrationDate entry)) 0\<rparr>
         \<and> Equal (time_Unix (Unix (RegistrationDate entry)) 0)
                 (Truncate_Second (RegistrationDate entry))"
proof -
  from assms(2) have "DB db' (Domain entry) =
      Some (Marshal J \<lparr>FirstObserved = Unix (RegistrationDate entry), TimeAdded = now\<rparr>)"
    by (cases f) (auto simp add: Add_DB)
  with assms(1) have "Query J None db' (Domain entry) =
      Inr \<lparr>Domain = Domain entry,
           RegistrationDate = time_Unix (Unix (RegistrationDate entry)) 0\<rparr>"
    by (simp add: Query_present codec_roundtrip_def)
  then show ?thesis
    by (simp add: Equal_def Truncate_Second_def time_Unix_zero_nsec Unix_def)
qed

theorem Add_then_Query_witness:
  "codec_roundtrip json_codec
   \<and> Add json_codec None 1700000000 empty_store evil_example =
       (None, snd (Add json_codec None 1700000000 empty_store evil_example))
   \<and> Query json_codec None (snd (Add json_codec None 1700000000 empty_store evil_example))
        ''evil.example'' =
      Inr \<lparr>Domain = ''evil.example'',
           RegistrationDate = \<lparr>unixSec = 1704067200, nanosecond = 0, location = Local\<rparr>\<rparr>"
proof -
  have ok: "Add json_codec None 1700000000 empty_store evil_example =
      (None, snd (Add json_codec None 1700000000 empty_store evil_example))"
    by (simp add: Add_DB)
  from Add_then_Query [OF json_codec_roundtrip ok] ok json_codec_roundtrip
  show ?thesis
    by (simp add: evil_example_def time_Unix_zero_nsec Unix_def)
qed

text \<open>
  Claim C3.  \<^verbatim>\<open>AddMany\<close> and \<^verbatim>\<open>DeleteMany\<close> apply their batch as a whole or not at
  all.  When \<^verbatim>\<open>AddMany\<close> returns no error, a query on the domain of any entry of the
  batch returns the date of the batch's last entry for that domain (its own date when
  the domains of the batch are distinct), every key that is not a domain of the batch
  keeps its value and is answered as before, and the path of the store is unchanged;
  when it returns an error, the store is the one before the call.  When
  \<^verbatim>\<open>DeleteMany\<close> returns no error, every domain of the batch is gone and answered as
  absent, every other key keeps its value and is answered as before, and the path is
  unchanged; when it returns an error, the store is the one before the call.
\<close>

theorem batch_atomic:
  assumes "codec_roundtrip J"
  shows "(AddMany J f clock db entries = (None, db') \<longrightarrow>
            (\<forall>e \<in> set entries.
               Query J None db' (Domain e) =
                 Inr \<lparr>Domain = Domain e,
                      RegistrationDate = time_Unix (Unix (RegistrationDate
                        (last (filter (\<lambda>x. Domain x = Domain e) entries)))) 0\<rparr>) \<and>
            (distinct (map Domain entries) \<longrightarrow>
               (\<forall>e \<in> set entries.
                  Query J None db' (Domain e) =
                    Inr \<lparr>Domain = Domain e,
                         RegistrationDate = time_Unix (Unix (RegistrationDate e)) 0\<rparr>)) \<and>
            (\<forall>key. key \<notin> Domain ` set entries \<longrightarrow>
               DB db' key = DB db key \<and> (\<forall>h. Query J h db' key = Query J h db key)) \<and>
            Path db' = Path db)
       \<and> (AddMany J f clock db entries = (Some err, db') \<longrightarrow> db' = db)
       \<and> (DeleteMany g db domains = (None, db'') \<longrightarrow>
            (\<forall>d \<in> set domains.
               DB db'' d = None \<and>
               Query J None db'' d = Inr \<lparr>Domain = d, RegistrationDate = time_Unix 0 0\<rparr>) \<and>
            (\<forall>key. key \<notin> set domains \<longrightarrow>
               DB db'' key = DB db key \<and> (\<forall>h. Query J h db'' key = Query J h db key)) \<and>
            Path db'' = Path db)
       \<and> (DeleteMany g db domains = (Some err', db'') \<longrightarrow> db'' = db)"
  (is "(?add_ok \<longrightarrow> ?a1 \<and> ?a2 \<and> ?a3 \<and> ?a4) \<and> (?add_err \<longrightarrow> ?a5) \<and>
       (?del_ok \<longrightarrow> ?d1 \<and> ?d2 \<and> ?d3) \<and> (?del_err \<longrightarrow> ?d4)")
proof -
  have add_visible: "Query J None db' (Domain e) =
      Inr \<lparr>Domain = Domain e,
           RegistrationDate = time_Unix (Unix (RegistrationDate
             (last (filter (\<lambda>x. Domain x = Domain e) entries)))) 0\<rparr>"
    if ok: ?add_ok and e: "e \<in> set entries" for e
  proof -
    from ok have db': "db' = db\<lparr>DB := fold batch_apply (AddMany_loop J clock 0 [] entries) (DB db)\<rparr>"
      by (cases f) (simp_all add: AddMany_result)
    from e have "Domain e \<in> Domain ` set entries"
      by simp
    from AddMany_loop_last [OF this, of J clock 0 "DB db"] obtain t where
      "DB db' (Domain e) = Some (Marshal J \<lparr>FirstObserved =
          Unix (RegistrationDate (last (filter (\<lambda>x. Domain x = Domain e) entries))),
          TimeAdded = t\<rparr>)"
      using db' by auto
    with assms show ?thesis
      by (simp add: Query_present codec_roundtrip_def)
  qed
  have a1: ?a1 if ?add_ok
    using add_visible [OF that] by (rule ballI)
  have a2: ?a2 if ok: ?add_ok
  proof (intro impI ballI)
    fix e assume dist: "distinct (map Domain entries)" and e: "e \<in> set entries"
    have own: "last (filter (\<lambda>x. Domain x = Domain e) entries) = e"
      by (simp only: filter_distinct_key [OF dist e] last.simps simp_thms if_True)
    show "Query J None db' (Domain e) =
        Inr \<lparr>Domain = Domain e, RegistrationDate = time_Unix (Unix (RegistrationDate e)) 0\<rparr>"
      using add_visible [OF ok e] unfolding own .
  qed
  have a3: ?a3 if ok: ?add_ok
  proof (intro allI impI)
    fix key assume key: "key \<notin> Domain ` set entries"
    from ok have "db' = db\<lparr>DB := fold batch_apply (AddMany_loop J clock 0 [] entries) (DB db)\<rparr>"
      by (cases f) (simp_all add: AddMany_result)
    with key have "DB db' key = DB db key"
      by (simp add: AddMany_loop_other)
    then show "DB db' key = DB db key \<and> (\<forall>h. Query J h db' key = Query J h db key)"
      by (simp add: Query_cong_DB [of db' key db])
  qed
  have a4: ?a4 if ?add_ok
    using that by (cases f) (auto simp add: AddMany_result)
  have a5: ?a5 if ?add_err
    using that by (cases f) (simp_all add: AddMany_result)
  have d1: ?d1 if ok: ?del_ok
  proof (rule ballI)
    fix d assume d: "d \<in> set domains"
    with ok have "DB db'' d = None"
      by (cases g) (auto simp add: DeleteMany_result DeleteMany_loop_fold)
    then show "DB db'' d = None \<and>
        Query J None db'' d = Inr \<lparr>Domain = d, RegistrationDate = time_Unix 0 0\<rparr>"
      by (simp add: Query_absent)
  qed
  have d2: ?d2 if ok: ?del_ok
  proof (intro allI impI)
    fix key assume key: "key \<notin> set domains"
    with ok have "DB db'' key = DB db key"
      by (cases g) (auto simp add: DeleteMany_result DeleteMany_loop_fold)
    then show "DB db'' key = DB db key \<and> (\<forall>h. Query J h db'' key = Query J h db key)"
      by (simp add: Query_cong_DB [of db'' key db])
  qed
  have d3: ?d3 if ?del_ok
    using that by (cases g) (auto simp add: DeleteMany_result)
  have d4: ?d4 if ?del_err
    using that by (cases g) (simp_all add: DeleteMany_result)
  have add_part: "?add_ok \<longrightarrow> ?a1 \<and> ?a2 \<and> ?a3 \<and> ?a4"
  proof
    assume ok: ?add_ok
    show "?a1 \<and> ?a2 \<and> ?a3 \<and> ?a4"
      by (intro conjI) (fact a1 [OF ok], fact a2 [OF ok], fact a3 [OF ok], fact a4 [OF ok])
  qed
  have del_part: "?del_ok \<longrightarrow> ?d1 \<and> ?d2 \<and> ?d3"
  proof
    assume ok: ?del_ok
    show "?d1 \<and> ?d2 \<and> ?d3"
      by (intro conjI) (fact d1 [OF ok], fact d2 [OF ok], fact d3 [OF ok])
  qed
  have add_fail: "?add_err \<longrightarrow> ?a5"
    using a5 by (rule impI)
  have del_fail: "?del_err \<longrightarrow> ?d4"
    using d4 by (rule impI)
  show ?thesis
    by (intro conjI) (fact add_part, fact add_fail, fact del_part, fact del_fail)
qed


theorem batch_atomic_witness:
  "codec_roundtrip json_codec
   \<and> AddMany json_codec None ticking empty_store [evil_example, other_example] =
       (None, two_domains)
   \<and> Query json_codec None two_domains ''evil.example'' =
       Inr \<lparr>Domain = ''evil.example'', RegistrationDate = time_Unix 1704067200 0\<rparr>
   \<and> Query json_codec None two_domains ''other.example'' =
       Inr \<lparr>Domain = ''other.example'', RegistrationDate = time_Unix 1700000000 0\<rparr>
   \<and> fst (AddMany json_codec None ticking two_domains [evil_example_later]) = None
   \<and> Query json_codec None
        (snd (AddMany json_codec None ticking two_domains [evil_example_later]))
        ''evil.example'' =
       Inr \<lparr>Domain = ''evil.example'', RegistrationDate = time_Unix 1735689600 0\<rparr>
   \<and> Query json_codec None
        (snd (AddMany json_codec None ticking two_domains [evil_example_later]))
        ''other.example'' =
       Inr \<lparr>Domain = ''other.example'', RegistrationDate = time_Unix 1700000000 0\<rparr>
   \<and> Path (snd (AddMany json_codec None ticking two_domains [evil_example_later])) =
       Path two_domains
   \<and> AddMany json_codec (Some ''disk full'') ticking two_domains [evil_example_later] =
       (Some (EngineError ''disk full''), two_domains)
   \<and> fst (DeleteMany None two_domains [''evil.example'']) = None
   \<and> DB (snd (DeleteMany None two_domains [''evil.example''])) ''evil.example'' = None
   \<and> Query json_codec None (snd (DeleteMany None two_domains [''evil.example'']))
        ''evil.example'' =
       Inr \<lparr>Domain = ''evil.example'', RegistrationDate = time_Unix 0 0\<rparr>
   \<and> Query json_codec None (snd (DeleteMany None two_domains [''evil.example'']))
        ''other.example'' =
       Inr \<lparr>Domain = ''other.example'', RegistrationDate = time_Unix 1700000000 0\<rparr>
   \<and> DeleteMany (Some ''disk full'') two_domains [''evil.example''] =
       (Some (EngineError ''disk full''), two_domains)"
proof -
  let ?es = "[evil_example, other_example]"
  let ?more = "snd (AddMany json_codec None ticking two_domains [evil_example_later])"
  let ?kept = "snd (AddMany json_codec (Some ''disk full'') ticking two_domains
      [evil_example_later])"
  let ?less = "snd (DeleteMany None two_domains [''evil.example''])"
  let ?same = "snd (DeleteMany (Some ''disk full'') two_domains [''evil.example''])"
  have add_ok: "AddMany json_codec None ticking empty_store ?es = (None, two_domains)"
    by (simp add: AddMany_result two_domains_def)
  have more_ok: "AddMany json_codec None ticking two_domains [evil_example_later] = (None, ?more)"
    by (simp add: AddMany_result)
  have more_err: "AddMany json_codec (Some ''disk full'') ticking two_domains
      [evil_example_later] = (Some (EngineError ''disk full''), ?kept)"
    by (simp add: AddMany_result)
  have del_ok: "DeleteMany None two_domains [''evil.example''] = (None, ?less)"
    by (simp add: DeleteMany_result)
  have del_err: "DeleteMany (Some ''disk full'') two_domains [''evil.example''] =
      (Some (EngineError ''disk full''), ?same)"
    by (simp add: DeleteMany_result)
  have dist: "distinct (map Domain ?es)"
    by (simp add: evil_example_def other_example_def)
  note first = batch_atomic [OF json_codec_roundtrip,
      where f = None and clock = ticking and db = empty_store and entries = ?es
        and db' = two_domains]
  have visible: "\<forall>e \<in> set ?es. Query json_codec None two_domains (Domain e) =
      Inr \<lparr>Domain = Domain e, RegistrationDate = time_Unix (Unix (RegistrationDate e)) 0\<rparr>"
    using first add_ok dist by blast
  have q1: "Query json_codec None two_domains ''evil.example'' =
      Inr \<lparr>Domain = ''evil.example'', RegistrationDate = time_Unix 1704067200 0\<rparr>"
    using visible by (simp add: evil_example_def Unix_def)
  have q2: "Query json_codec None two_domains ''other.example'' =
      Inr \<lparr>Domain = ''other.example'', RegistrationDate = time_Unix 1700000000 0\<rparr>"
    using visible by (simp add: other_example_def Unix_def)
  note second = batch_atomic [OF json_codec_roundtrip,
      where f = None and clock = ticking and db = two_domains
        and entries = "[evil_example_later]" and db' = ?more]
  have later: "\<forall>e \<in> set [evil_example_later]. Query json_codec None ?more (Domain e) =
      Inr \<lparr>Domain = Domain e, RegistrationDate = time_Unix (Unix (RegistrationDate
        (last (filter (\<lambda>x. Domain x = Domain e) [evil_example_later])))) 0\<rparr>"
    using second more_ok by blast
  have q3: "Query json_codec None ?more ''evil.example'' =
      Inr \<lparr>Domain = ''evil.example'', RegistrationDate = time_Unix 1735689600 0\<rparr>"
    using later by (simp add: evil_example_later_def Unix_def)
  have outside: "''other.example'' \<notin> Domain ` set [evil_example_later]"
    by (simp add: evil_example_later_def)
  have frame: "\<forall>key. key \<notin> Domain ` set [evil_example_later] \<longrightarrow>
      DB ?more key = DB two_domains key \<and>
      (\<forall>h. Query json_codec h ?more key = Query json_codec h two_domains key)"
    using second more_ok by blast
  have q4: "Query json_codec None ?more ''other.example'' =
      Inr \<lparr>Domain = ''other.example'', RegistrationDate = time_Unix 1700000000 0\<rparr>"
    using frame outside q2 by metis
  have path: "Path ?more = Path two_domains"
    using second more_ok by blast
  note failed = batch_atomic [OF json_codec_roundtrip,
      where f = "Some ''disk full''" and clock = ticking and db = two_domains
        and entries = "[evil_example_later]" and db' = ?kept
        and err = "EngineError ''disk full''"]
  have "?kept = two_domains"
    using failed more_err by blast
  with more_err have e1: "AddMany json_codec (Some ''disk full'') ticking two_domains
      [evil_example_later] = (Some (EngineError ''disk full''), two_domains)"
    by simp
  note del = batch_atomic [OF json_codec_roundtrip,
      where g = None and db = two_domains and domains = "[''evil.example'']" and db'' = ?less]
  have gone: "\<forall>d \<in> set [''evil.example'']. DB ?less d = None \<and>
      Query json_codec None ?less d = Inr \<lparr>Domain = d, RegistrationDate = time_Unix 0 0\<rparr>"
    using del del_ok by blast
  have q5: "DB ?less ''evil.example'' = None"
    using gone by simp
  have q6: "Query json_codec None ?less ''evil.example'' =
      Inr \<lparr>Domain = ''evil.example'', RegistrationDate = time_Unix 0 0\<rparr>"
    using gone by simp
  have del_frame: "\<forall>key. key \<notin> set [''evil.example''] \<longrightarrow>
      DB ?less key = DB two_domains key \<and>
      (\<forall>h. Query json_codec h ?less key = Query json_codec h two_domains key)"
    using del del_ok by blast
  have outside': "''other.example'' \<notin> set [''evil.example'']"
    by simp
  have q7: "Query json_codec None ?less ''other.example'' =
      Inr \<lparr>Domain = ''other.example'', RegistrationDate = time_Unix 1700000000 0\<rparr>"
    using del_frame outside' q2 by metis
  note del_failed = batch_atomic [OF json_codec_roundtrip,
      where g = "Some ''disk full''" and db = two_domains and domains = "[''evil.example'']"
        and db'' = ?same and err' = "EngineError ''disk full''"]
  have "?same = two_domains"
    using del_failed del_err by blast
  with del_err have e2: "DeleteMany (Some ''disk full'') two_domains [''evil.example''] =
      (Some (EngineError ''disk full''), two_domains)"
    by simp
  have f1: "fst (AddMany json_codec None ticking two_domains [evil_example_later]) = None"
    by (simp add: AddMany_result)
  have f2: "fst (DeleteMany None two_domains [''evil.example'']) = None"
    by (simp add: DeleteMany_result)
  show ?thesis
    by (intro conjI)
       (fact json_codec_roundtrip, fact add_ok, fact q1, fact q2, fact f1, fact q3, fact q4,
        fact path, fact e1, fact f2, fact q5, fact q6, fact q7, fact e2)
qed

text \<open>
  Claim C4.  \<^verbatim>\<open>QueryMany\<close> succeeds exactly when the \<^verbatim>\<open>Query\<close> of every input domain
  succeeds, and then its result has one entry per input domain, in the order of the input:
  the entry at position \<open>k\<close> is the result of the \<open>k\<close>-th \<^verbatim>\<open>Query\<close>, and its
  domain is the \<open>k\<close>-th input domain.  It returns an error exactly when some
  \<^verbatim>\<open>Query\<close> fails while all the ones before it succeeded, and the error is that of
  this first failing \<^verbatim>\<open>Query\<close>; no entries are returned with it.
\<close>

theorem QueryMany_in_order:
  "(QueryMany J faults db domains = Inr entries \<longleftrightarrow>
      length entries = length domains \<and>
      (\<forall>k < length domains. Query J (faults k) db (domains ! k) = Inr (entries ! k)))
   \<and> (QueryMany J faults db domains = Inr entries \<longrightarrow> map Domain entries = domains)
   \<and> (QueryMany J faults db domains = Inl err \<longleftrightarrow>
        (\<exists>k < length domains.
           Query J (faults k) db (domains ! k) = Inl err \<and>
           (\<forall>j < k. \<exists>e. Query J (faults j) db (domains ! j) = Inr e)))"
proof (intro conjI impI)
  show ok: "QueryMany J faults db domains = Inr entries \<longleftrightarrow>
      length entries = length domains \<and>
      (\<forall>k < length domains. Query J (faults k) db (domains ! k) = Inr (entries ! k))"
    by (simp add: QueryMany_def QueryMany_loop_Inr)
  show "QueryMany J faults db domains = Inl err \<longleftrightarrow>
      (\<exists>k < length domains.
         Query J (faults k) db (domains ! k) = Inl err \<and>
         (\<forall>j < k. \<exists>e. Query J (faults j) db (domains ! j) = Inr e))"
    by (simp add: QueryMany_def QueryMany_loop_Inl)
  assume "QueryMany J faults db domains = Inr entries"
  with ok have len: "length entries = length domains"
    and each: "\<forall>k < length domains. Query J (faults k) db (domains ! k) = Inr (entries ! k)"
    by simp_all
  show "map Domain entries = domains"
  proof (rule nth_equalityI)
    show "length (map Domain entries) = length domains"
      using len by simp
  next
    fix k assume "k < length (map Domain entries)"
    with len each have "k < length entries" "Query J (faults k) db (domains ! k) = Inr (entries ! k)"
      by simp_all
    then show "map Domain entries ! k = domains ! k"
      by (simp add: Query_Inr_Domain)
  qed
qed

theorem QueryMany_in_order_witness:
  "QueryMany json_codec (\<lambda>k. None)
      (snd (Add json_codec None 1700000000 empty_store evil_example))
      [''evil.example'', ''never-seen.example''] =
     Inr [\<lparr>Domain = ''evil.example'', RegistrationDate = time_Unix 1704067200 0\<rparr>,
          \<lparr>Domain = ''never-seen.example'', RegistrationDate = time_Unix 0 0\<rparr>]
   \<and> QueryMany json_codec second_lookup_fails
      (snd (Add json_codec None 1700000000 empty_store evil_example))
      [''evil.example'', ''never-seen.example'', ''other.example''] =
     Inl (EngineError ''read error'')"
proof -
  let ?db = "snd (Add json_codec None 1700000000 empty_store evil_example)"
  have stored: "DB ?db ''evil.example'' =
      Some (Marshal json_codec \<lparr>FirstObserved = 1704067200, TimeAdded = 1700000000\<rparr>)"
    by (simp add: Add_DB evil_example_def Unix_def)
  have q0: "Query json_codec None ?db ''evil.example'' =
      Inr \<lparr>Domain = ''evil.example'', RegistrationDate = time_Unix 1704067200 0\<rparr>"
    using json_codec_roundtrip by (simp add: Query_present [OF stored] codec_roundtrip_def)
  have absent: "DB ?db ''never-seen.example'' = None"
    by (simp add: Add_DB evil_example_def empty_store_def)
  have q1: "Query json_codec None ?db ''never-seen.example'' =
      Inr \<lparr>Domain = ''never-seen.example'', RegistrationDate = time_Unix 0 0\<rparr>"
    by (rule Query_absent [OF absent])
  let ?es = "[\<lparr>Domain = ''evil.example'', RegistrationDate = time_Unix 1704067200 0\<rparr>,
          \<lparr>Domain = ''never-seen.example'', RegistrationDate = time_Unix 0 0\<rparr>]"
  have "length ?es = length [''evil.example'', ''never-seen.example''] \<and>
      (\<forall>k < length [''evil.example'', ''never-seen.example''].
         Query json_codec None ?db ([''evil.example'', ''never-seen.example''] ! k) = Inr (?es ! k))"
    using q0 q1 by (simp add: All_less_Suc2)
  then have ok: "QueryMany json_codec (\<lambda>k. None) ?db [''evil.example'', ''never-seen.example''] =
      Inr ?es"
    using QueryMany_in_order [of json_codec "\<lambda>k. None" ?db
        "[''evil.example'', ''never-seen.example'']" ?es]
    by blast
  let ?ds = "[''evil.example'', ''never-seen.example'', ''other.example'']"
  have "Query json_codec (second_lookup_fails 1) ?db (?ds ! 1) = Inl (EngineError ''read error'') \<and>
      (\<forall>j < 1. \<exists>e. Query json_codec (second_lookup_fails j) ?db (?ds ! j) = Inr e)"
    using q0 by (simp add: second_lookup_fails_def Query_fault)
  moreover have "(1::nat) < length ?ds"
    by simp
  ultimately have "\<exists>k < length ?ds.
      Query json_codec (second_lookup_fails k) ?db (?ds ! k) = Inl (EngineError ''read error'') \<and>
      (\<forall>j < k. \<exists>e. Query json_codec (second_lookup_fails j) ?db (?ds ! j) = Inr e)"
    by blast
  then have err: "QueryMany json_codec second_lookup_fails ?db ?ds =
      Inl (EngineError ''read error'')"
    using QueryMany_in_order [of json_codec second_lookup_fails ?db ?ds _
        "EngineError ''read error''"]
    by blast
  from ok err show ?thesis
    by simp
qed

text \<open>
  Claim C9.  The last write wins.  A successful \<^verbatim>\<open>Add\<close> leaves under the domain the
  encoding of the new first-observed time and the new insertion time, whatever was
  stored before.  After a successful \<^verbatim>\<open>AddMany\<close>, an entry that is the last of the
  batch for its domain determines the stored record: its first-observed time and the
  clock reading of its own iteration.
\<close>

theorem last_write_wins:
  "(Add J f now db entry = (None, db') \<longrightarrow>
      DB db' (Domain entry) =
        Some (Marshal J \<lparr>FirstObserved = Unix (RegistrationDate entry), TimeAdded = now\<rparr>))
   \<and> (AddMany J g clock db entries = (None, db'') \<longrightarrow>
        (\<forall>i < length entries.
           (\<forall>j. i < j \<and> j < length entries \<longrightarrow> Domain (entries ! j) \<noteq> Domain (entries ! i)) \<longrightarrow>
           DB db'' (Domain (entries ! i)) =
             Some (Marshal J \<lparr>FirstObserved = Unix (RegistrationDate (entries ! i)),
                              TimeAdded = clock i\<rparr>)))"
proof (intro conjI impI allI)
  assume "Add J f now db entry = (None, db')"
  then show "DB db' (Domain entry) =
      Some (Marshal J \<lparr>FirstObserved = Unix (RegistrationDate entry), TimeAdded = now\<rparr>)"
    by (cases f) (auto simp add: Add_DB)
next
  fix i
  assume ok: "AddMany J g clock db entries = (None, db'')"
    and i: "i < length entries"
    and later: "\<forall>j. i < j \<and> j < length entries \<longrightarrow> Domain (entries ! j) \<noteq> Domain (entries ! i)"
  from ok have "db'' = db\<lparr>DB := fold batch_apply (AddMany_loop J clock 0 [] entries) (DB db)\<rparr>"
    by (cases g) (simp_all add: AddMany_result)
  with AddMany_loop_index [OF i later, of J clock 0 "DB db"]
  show "DB db'' (Domain (entries ! i)) =
      Some (Marshal J \<lparr>FirstObserved = Unix (RegistrationDate (entries ! i)),
                       TimeAdded = clock i\<rparr>)"
    by simp
qed

theorem last_write_wins_witness:
  "fst (Add json_codec None 1700000000 empty_store evil_example) = None
   \<and> DB (snd (Add json_codec None 1700000000
              (snd (Add json_codec None 1600000000 empty_store evil_example_later))
              evil_example)) ''evil.example'' =
       Some (json_Marshal \<lparr>FirstObserved = 1704067200, TimeAdded = 1700000000\<rparr>)
   \<and> fst (AddMany json_codec None ticking empty_store
             [evil_example, other_example, evil_example_later]) = None
   \<and> DB (snd (AddMany json_codec None ticking empty_store
             [evil_example, other_example, evil_example_later])) ''evil.example'' =
       Some (json_Marshal \<lparr>FirstObserved = 1735689600, TimeAdded = 1700000002\<rparr>)"
proof -
  let ?before = "snd (Add json_codec None 1600000000 empty_store evil_example_later)"
  let ?after = "snd (Add json_codec None 1700000000 ?before evil_example)"
  let ?es = "[evil_example, other_example, evil_example_later]"
  let ?batch = "snd (AddMany json_codec None ticking empty_store ?es)"
  have add_ok: "Add json_codec None 1700000000 ?before evil_example = (None, ?after)"
    by (simp add: Add_DB)
  have many_ok: "AddMany json_codec None ticking empty_store ?es = (None, ?batch)"
    by (simp add: AddMany_result)
  note one = last_write_wins [where J = json_codec and f = None and now = 1700000000
      and db = ?before and entry = evil_example and db' = ?after]
  note lww = last_write_wins [where J = json_codec and g = None and clock = ticking
      and db = empty_store and entries = ?es and db'' = ?batch]
  have single: "DB ?after (Domain evil_example) =
      Some (Marshal json_codec \<lparr>FirstObserved = Unix (RegistrationDate evil_example),
                                 TimeAdded = 1700000000\<rparr>)"
    using one add_ok by blast
  have "\<not> (2 < j \<and> j < length ?es)" for j
    by auto
  then have last_occurrence:
    "\<forall>j. 2 < j \<and> j < length ?es \<longrightarrow> Domain (?es ! j) \<noteq> Domain (?es ! 2)"
    by blast
  have "(2::nat) < length ?es"
    by simp
  then have many: "DB ?batch (Domain (?es ! 2)) =
      Some (Marshal json_codec \<lparr>FirstObserved = Unix (RegistrationDate (?es ! 2)),
                                 TimeAdded = ticking 2\<rparr>)"
    using lww many_ok last_occurrence by blast
  have f1: "fst (Add json_codec None 1700000000 empty_store evil_example) = None"
    by (simp add: Add_DB)
  have f2: "fst (AddMany json_codec None ticking empty_store ?es) = None"
    by (simp add: AddMany_result)
  have s1: "DB ?after ''evil.example'' =
      Some (json_Marshal \<lparr>FirstObserved = 1704067200, TimeAdded = 1700000000\<rparr>)"
    using single by (simp add: evil_example_def Unix_def json_codec_def)
  have s2: "DB ?batch ''evil.example'' =
      Some (json_Marshal \<lparr>FirstObserved = 1735689600, TimeAdded = 1700000002\<rparr>)"
    using many by (simp add: evil_example_later_def Unix_def json_codec_def ticking_def)
  show ?thesis
    using f1 s1 f2 s2 by blast
qed

text \<open>
  Claim C10.  An entry dated at the Unix epoch cannot be told from an absent one: after
  a successful \<^verbatim>\<open>Add\<close> of such an entry, \<^verbatim>\<open>Query\<close> on its domain returns exactly
  what \<^verbatim>\<open>Query\<close> returns for that domain on a store into which it was never inserted.
\<close>

theorem epoch_is_the_sentinel:
  assumes "codec_roundtrip J"
    and "Equal (RegistrationDate entry) (time_Unix 0 0)"
    and "Add J f now db entry = (None, db')"
    and "DB db0 (Domain entry) = None"
    and "\<forall>c \<in> set calls. Domain entry \<notin> inserted c"
  shows "DB db' (Domain entry) = Some (Marshal J \<lparr>FirstObserved = 0, TimeAdded = now\<rparr>)
     \<and> DB (run J db0 calls) (Domain entry) = None
     \<and> Query J None db' (Domain entry) =
         Inr \<lparr>Domain = Domain entry, RegistrationDate = time_Unix 0 0\<rparr>
     \<and> Query J None db' (Domain entry) = Query J None (run J db0 calls) (Domain entry)"
proof -
  from assms(2) have "Unix (RegistrationDate entry) = 0"
    by (simp add: Equal_def Unix_def time_Unix_zero_nsec)
  moreover from assms(3) have "DB db' (Domain entry) =
      Some (Marshal J \<lparr>FirstObserved = Unix (RegistrationDate entry), TimeAdded = now\<rparr>)"
    by (cases f) (auto simp add: Add_DB)
  ultimately have stored: "DB db' (Domain entry) =
      Some (Marshal J \<lparr>FirstObserved = 0, TimeAdded = now\<rparr>)"
    by simp
  with assms(1) have present: "Query J None db' (Domain entry) =
      Inr \<lparr>Domain = Domain entry, RegistrationDate = time_Unix 0 0\<rparr>"
    by (simp add: Query_present codec_roundtrip_def)
  have absent: "DB (run J db0 calls) (Domain entry) = None"
    by (rule run_absent [OF assms(4,5)])
  then have "Query J None (run J db0 calls) (Domain entry) =
      Inr \<lparr>Domain = Domain entry, RegistrationDate = time_Unix 0 0\<rparr>"
    by (rule Query_absent)
  with present have "Query J None db' (Domain entry) =
      Query J None (run J db0 calls) (Domain entry)"
    by simp
  with stored absent present show ?thesis
    by (intro conjI)
qed

theorem epoch_is_the_sentinel_witness:
  "codec_roundtrip json_codec
   \<and> Equal (RegistrationDate epoch_example) (time_Unix 0 0)
   \<and> Add json_codec None 1700000000 empty_store epoch_example =
       (None, snd (Add json_codec None 1700000000 empty_store epoch_example))
   \<and> DB empty_store ''old.example'' = None
   \<and> ''old.example'' \<notin> inserted (CallAdd None 1700000000 evil_example)
   \<and> DB (snd (Add json_codec None 1700000000 empty_store epoch_example)) ''old.example'' =
       Some (json_Marshal \<lparr>FirstObserved = 0, TimeAdded = 1700000000\<rparr>)
   \<and> DB (run json_codec empty_store [CallAdd None 1700000000 evil_example]) ''old.example'' =
       None
   \<and> Query json_codec None (snd (Add json_codec None 1700000000 empty_store epoch_example))
        ''old.example'' =
       Inr \<lparr>Domain = ''old.example'', RegistrationDate = time_Unix 0 0\<rparr>
   \<and> Query json_codec None (snd (Add json_codec None 1700000000 empty_store epoch_example))
        ''old.example'' =
       Query json_codec None (run json_codec empty_store [CallAdd None 1700000000 evil_example])
        ''old.example''"
proof -
  let ?db = "snd (Add json_codec None 1700000000 empty_store epoch_example)"
  let ?other = "run json_codec empty_store [CallAdd None 1700000000 evil_example]"
  have eq: "Equal (RegistrationDate epoch_example) (time_Unix 0 0)"
    by (simp add: epoch_example_def Equal_def time_Unix_zero_nsec)
  have ok: "Add json_codec None 1700000000 empty_store epoch_example = (None, ?db)"
    by (simp add: Add_DB)
  have absent: "DB empty_store (Domain epoch_example) = None"
    by (simp add: empty_store_def)
  have never: "\<forall>c \<in> set [CallAdd None 1700000000 evil_example]. Domain epoch_example \<notin> inserted c"
    by (simp add: epoch_example_def evil_example_def)
  have name: "Domain epoch_example = ''old.example''"
    by (simp add: epoch_example_def)
  note sentinel = epoch_is_the_sentinel [OF json_codec_roundtrip eq ok absent never,
      unfolded name]
  have stored: "DB ?db ''old.example'' =
      Some (json_Marshal \<lparr>FirstObserved = 0, TimeAdded = 1700000000\<rparr>)"
    using conjunct1 [OF sentinel] by (simp add: json_codec_def)
  have gone: "DB ?other ''old.example'' = None"
    using sentinel by blast
  have present: "Query json_codec None ?db ''old.example'' =
      Inr \<lparr>Domain = ''old.example'', RegistrationDate = time_Unix 0 0\<rparr>"
    using sentinel by blast
  have same: "Query json_codec None ?db ''old.example'' = Query json_codec None ?other ''old.example''"
    using sentinel by blast
  have absent': "DB empty_store ''old.example'' = None"
    by (simp add: empty_store_def)
  have never': "''old.example'' \<notin> inserted (CallAdd None 1700000000 evil_example)"
    by (simp add: evil_example_def)
  show ?thesis
    by (intro conjI)
       (fact json_codec_roundtrip, fact eq, fact ok, fact absent', fact never', fact stored,
        fact gone, fact present, fact same)
qed

section \<open>The claims about the HTTP layer\<close>






text \<open>
  Claim C7.  For a non-empty domain the \<^verbatim>\<open>query\<close> handler never answers 404: a
  successful \<^verbatim>\<open>Query\<close> carries the queried domain, so the handler's test for an empty
  domain fails, and the status is 500 when \<^verbatim>\<open>Query\<close> returns an error and 200
  otherwise.
\<close>

theorem query_never_404:
  assumes "domain \<noteq> []"
  shows "fst (query J f api domain) \<noteq> 404
     \<and> fst (query J f api domain) =
         (case Query J f (api_DB api) domain of Inl err \<Rightarrow> 500 | Inr entry \<Rightarrow> 200)
     \<and> (\<forall>entry. Query J f (api_DB api) domain = Inr entry \<longrightarrow> Domain entry = domain)"
proof (cases "Query J f (api_DB api) domain")
  case (Inl err)
  then show ?thesis
    by (simp add: query_def)
next
  case (Inr entry)
  then have "Domain entry = domain"
    by (rule Query_Inr_Domain)
  with Inr assms show ?thesis
    by (simp add: query_def)
qed

theorem query_never_404_witness:
  "''never-seen.example'' \<noteq> []
   \<and> fst (query json_codec None \<lparr>api_DB = empty_store, api_C = default_config\<rparr>
        ''never-seen.example'') = 200
   \<and> fst (query json_codec None \<lparr>api_DB = empty_store, api_C = default_config\<rparr>
        ''never-seen.example'') \<noteq> 404
   \<and> fst (query json_codec (Some ''disk failure'')
        \<lparr>api_DB = empty_store, api_C = default_config\<rparr> ''never-seen.example'') = 500"
proof -
  let ?api = "\<lparr>api_DB = empty_store, api_C = default_config\<rparr>"
  have ne: "''never-seen.example'' \<noteq> []"
    by simp
  have absent: "DB empty_store ''never-seen.example'' = None"
    by (simp add: empty_store_def)
  note healthy = query_never_404 [OF ne, of json_codec None ?api]
  note failing = query_never_404 [OF ne, of json_codec "Some ''disk failure''" ?api]
  have ok: "fst (query json_codec None ?api ''never-seen.example'') = 200"
    using conjunct1 [OF conjunct2 [OF healthy]] by (simp add: Query_absent [OF absent])
  have not_404: "fst (query json_codec None ?api ''never-seen.example'') \<noteq> 404"
    using healthy by blast
  have err: "fst (query json_codec (Some ''disk failure'') ?api ''never-seen.example'') = 500"
    using conjunct1 [OF conjunct2 [OF failing]] by (simp add: Query_fault)
  show ?thesis
    by (intro conjI) (fact ne, fact ok, fact not_404, fact err)
qed

text \<open>
  Claim C8.  The \<^verbatim>\<open>deleteDomain\<close> handler answers 200 when \<^verbatim>\<open>Delete\<close> returns no
  error and 404 when it returns one (lemma \<open>deleteDomain_status\<close>).  The comment in the
  handler and the claim expect 404 for a domain that is not in the store; but the
  engine's delete of an absent key succeeds, so on the empty store the handler answers
  200 with the body \<^verbatim>\<open>{"status":"ok"}\<close>.
\<close>

theorem deleteDomain_absent_is_200:
  "DB empty_store ''never-seen.example'' = None
   \<and> fst (Delete None empty_store ''never-seen.example'') = None
   \<and> fst (deleteDomain None \<lparr>api_DB = empty_store, api_C = default_config\<rparr>
        ''never-seen.example'') = (200, StatusBody ''ok'')"
  by (simp add: deleteDomain_def Delete_DB empty_store_def)

end
